theory Spec2Isabelle
  imports Main "HOL-Library.Log_Nat"
begin

section \<open>JavaScript numbers\<close>

text \<open>
  The module \<^verbatim>\<open>health.service.js\<close> computes with JavaScript Numbers: IEEE 754 binary64
  values. A Number is modelled by its exact value: a rational for a finite one, and one
  constructor each for the two infinities and for NaN. Every arithmetic operation computes
  the exact result and rounds it to the nearest binary64 value, ties to the even
  significand, as the language prescribes.

  The two zeros of binary64 are one value here (\<open>Finite 0\<close>, read as \<open>+0\<close>). The module
  divides by counters, readings and positive constants only, none of which is \<open>-0\<close>, and
  neither a comparison nor a printed text tells the two zeros apart.
\<close>

datatype number = Finite rat | PosInfinity | NegInfinity | NaN

text \<open>\<open>floor_log2 q\<close> is the binary exponent of a positive rational: \<open>2^e \<le> q < 2^(e+1)\<close>.\<close>

definition floor_log2 :: "rat \<Rightarrow> int" where
  "floor_log2 q =
     (let (a, b) = quotient_of q; k = bitlen a - bitlen b
      in if 2 powi k \<le> q then k else k - 1)"

definition round_half_even :: "rat \<Rightarrow> int" where
  "round_half_even r =
     (let f = \<lfloor>r\<rfloor>; d = r - of_int f
      in if d < 1 / 2 then f
         else if 1 / 2 < d then f + 1
         else if even f then f else f + 1)"

text \<open>
  Rounding to binary64 with an unbounded exponent range above: 53 significant bits for a
  normal value, the fixed quantum \<open>2^-1074\<close> for a subnormal one.
\<close>

definition round_to_double :: "rat \<Rightarrow> rat" where
  "round_to_double q =
     (if q = 0 then 0
      else let p = max (floor_log2 \<bar>q\<bar> - 52) (- 1074)
           in of_int (round_half_even (q / 2 powi p)) * 2 powi p)"

text \<open>A rounded result of magnitude \<open>2^1024\<close> or more overflows to an infinity.\<close>

definition to_number :: "rat \<Rightarrow> number" where
  "to_number q =
     (let r = round_to_double q
      in if 2 ^ 1024 \<le> r then PosInfinity
         else if r \<le> - (2 ^ 1024) then NegInfinity
         else Finite r)"

text \<open>An integer reading of the runtime (a byte count, a time in microseconds) as a Number.\<close>

definition number_of_nat :: "nat \<Rightarrow> number" where
  "number_of_nat n = to_number (of_nat n)"

fun js_neg :: "number \<Rightarrow> number" where
  "js_neg (Finite a) = Finite (- a)"
| "js_neg PosInfinity = NegInfinity"
| "js_neg NegInfinity = PosInfinity"
| "js_neg NaN = NaN"

fun js_add :: "number \<Rightarrow> number \<Rightarrow> number" where
  "js_add (Finite a) (Finite b) = to_number (a + b)"
| "js_add NaN y = NaN"
| "js_add x NaN = NaN"
| "js_add PosInfinity NegInfinity = NaN"
| "js_add NegInfinity PosInfinity = NaN"
| "js_add PosInfinity y = PosInfinity"
| "js_add NegInfinity y = NegInfinity"
| "js_add (Finite a) y = y"

definition js_sub :: "number \<Rightarrow> number \<Rightarrow> number" where
  "js_sub x y = js_add x (js_neg y)"

fun js_sign_lt0 :: "number \<Rightarrow> bool" where
  "js_sign_lt0 (Finite a) = (a < 0)"
| "js_sign_lt0 NegInfinity = True"
| "js_sign_lt0 x = False"

definition signed_infinity :: "bool \<Rightarrow> number" where
  "signed_infinity negative = (if negative then NegInfinity else PosInfinity)"

fun js_mul :: "number \<Rightarrow> number \<Rightarrow> number" where
  "js_mul (Finite a) (Finite b) = to_number (a * b)"
| "js_mul NaN y = NaN"
| "js_mul x NaN = NaN"
| "js_mul (Finite a) y =
     (if a = 0 then NaN else signed_infinity ((a < 0) \<noteq> js_sign_lt0 y))"
| "js_mul x (Finite b) =
     (if b = 0 then NaN else signed_infinity (js_sign_lt0 x \<noteq> (b < 0)))"
| "js_mul x y = signed_infinity (js_sign_lt0 x \<noteq> js_sign_lt0 y)"

fun js_div :: "number \<Rightarrow> number \<Rightarrow> number" where
  "js_div (Finite a) (Finite b) =
     (if b = 0 then (if a = 0 then NaN else signed_infinity (a < 0))
      else to_number (a / b))"
| "js_div NaN y = NaN"
| "js_div x NaN = NaN"
| "js_div (Finite a) y = Finite 0"
| "js_div x (Finite b) = signed_infinity (js_sign_lt0 x \<noteq> (b < 0))"
| "js_div x y = NaN"

text \<open>The relational operator \<^verbatim>\<open><\<close>: false as soon as one operand is NaN.\<close>

fun js_lt :: "number \<Rightarrow> number \<Rightarrow> bool" where
  "js_lt (Finite a) (Finite b) = (a < b)"
| "js_lt NaN y = False"
| "js_lt x NaN = False"
| "js_lt NegInfinity NegInfinity = False"
| "js_lt NegInfinity y = True"
| "js_lt x PosInfinity = (x \<noteq> PosInfinity)"
| "js_lt x y = False"

definition js_gt :: "number \<Rightarrow> number \<Rightarrow> bool" where
  "js_gt x y = js_lt y x"

text \<open>
  \<^verbatim>\<open>Math.floor\<close> and \<^verbatim>\<open>Math.round\<close> (the latter rounds a tie towards \<open>+\<infinity>\<close>). Both are
  exact: the result of either on a binary64 value is a binary64 value.
\<close>

fun Math_floor :: "number \<Rightarrow> number" where
  "Math_floor (Finite a) = Finite (of_int \<lfloor>a\<rfloor>)"
| "Math_floor x = x"

fun Math_round :: "number \<Rightarrow> number" where
  "Math_round (Finite a) = Finite (of_int \<lfloor>a + 1 / 2\<rfloor>)"
| "Math_round x = x"

section \<open>Numbers as text\<close>

fun digit_chars :: "nat \<Rightarrow> string" where
  "digit_chars n =
     (if n < 10 then [''0123456789'' ! n]
      else digit_chars (n div 10) @ [''0123456789'' ! (n mod 10)])"

declare digit_chars.simps [simp del]

text \<open>\<open>floor_log10 q\<close> is the decimal exponent of a positive rational: \<open>10^d \<le> q < 10^(d+1)\<close>.\<close>

definition floor_log10 :: "rat \<Rightarrow> int" where
  "floor_log10 q =
     (let d = (floor_log2 q * 30103) div 100000
      in if q < 10 powi d then d - 1
         else if 10 powi (d + 1) \<le> q then d + 1
         else d)"

text \<open>
  \<^verbatim>\<open>Number::toString\<close> prints the shortest decimal \<open>s \<times> 10^(n-k)\<close> (\<open>k\<close> digits) that rounds
  to the number, the closest to it when several of that length do. The search tries
  \<open>k = 1, 2, ...\<close>; at each length only the two decimals next to \<open>x\<close> can round to it.
  Seventeen digits always suffice for a binary64 value.
\<close>

fun shortest_digits :: "nat \<Rightarrow> rat \<Rightarrow> int \<Rightarrow> nat \<Rightarrow> nat \<times> int" where
  "shortest_digits fuel x n k =
     (let u = 10 powi (n - int k);
          lo = nat \<lfloor>x / u\<rfloor>;
          hi = lo + 1;
          ok_lo = (round_to_double (of_nat lo * u) = x);
          ok_hi = (round_to_double (of_nat hi * u) = x);
          pick_lo = (ok_lo \<and> (\<not> ok_hi \<or> x - of_nat lo * u \<le> of_nat hi * u - x))
      in if pick_lo then (lo, n)
         else if ok_hi then (if hi = 10 ^ k then (1, n + 1) else (hi, n))
         else (case fuel of 0 \<Rightarrow> (lo, n) | Suc fuel' \<Rightarrow> shortest_digits fuel' x n (Suc k)))"

declare shortest_digits.simps [simp del]

definition exponent_chars :: "int \<Rightarrow> string" where
  "exponent_chars e = (if e < 0 then ''-'' else ''+'') @ digit_chars (nat \<bar>e\<bar>)"

definition positive_to_string :: "rat \<Rightarrow> string" where
  "positive_to_string x =
     (let (s, n) = shortest_digits 16 x (floor_log10 x + 1) 1;
          ds = digit_chars s;
          k = int (length ds)
      in if - 5 \<le> n \<and> n \<le> 21 then
           (if k \<le> n then ds @ replicate (nat (n - k)) CHR ''0''
            else if 0 < n then take (nat n) ds @ ''.'' @ drop (nat n) ds
            else ''0.'' @ replicate (nat (- n)) CHR ''0'' @ ds)
         else if k = 1 then ds @ ''e'' @ exponent_chars (n - 1)
         else take 1 ds @ ''.'' @ drop 1 ds @ ''e'' @ exponent_chars (n - 1))"

fun js_to_string :: "number \<Rightarrow> string" where
  "js_to_string NaN = ''NaN''"
| "js_to_string PosInfinity = ''Infinity''"
| "js_to_string NegInfinity = ''-Infinity''"
| "js_to_string (Finite q) =
     (if q = 0 then ''0''
      else if q < 0 then ''-'' @ positive_to_string (- q)
      else positive_to_string q)"

text \<open>
  \<^verbatim>\<open>Number.prototype.toFixed(f)\<close>: the integer \<open>n\<close> nearest to \<open>x \<times> 10^f\<close> (the larger one
  of two), printed with \<open>f\<close> digits after the point; numbers of magnitude \<open>10^21\<close> or more,
  the infinities and NaN are printed as \<^verbatim>\<open>toString\<close> does.
\<close>

definition toFixed :: "number \<Rightarrow> nat \<Rightarrow> string" where
  "toFixed x f =
     (case x of
        Finite q \<Rightarrow>
          (let s = (if q < 0 then ''-'' else []);
               a = \<bar>q\<bar>
           in if 10 ^ 21 \<le> a then s @ js_to_string (Finite a)
              else
                let n = nat \<lfloor>a * 10 ^ f + 1 / 2\<rfloor>;
                    m = digit_chars n;
                    m = (if f \<noteq> 0 then
                           (let m = (if length m \<le> f
                                     then replicate (f + 1 - length m) CHR ''0'' @ m else m);
                                k = length m
                            in take (k - f) m @ ''.'' @ drop (k - f) m)
                         else m)
                in s @ m)
      | _ \<Rightarrow> js_to_string x)"


section \<open>Values and errors\<close>

text \<open>
  The values the module handles besides Numbers: strings and \<^verbatim>\<open>undefined\<close> (an environment
  variable that is not set). The operator \<^verbatim>\<open>||\<close> yields its left operand when that is
  truthy, its right operand otherwise; the empty string, zero, NaN and \<^verbatim>\<open>undefined\<close> are
  not truthy.
\<close>

datatype js_value = JS_undefined | JS_string string | JS_number number

fun truthy :: "js_value \<Rightarrow> bool" where
  "truthy JS_undefined = False"
| "truthy (JS_string s) = (s \<noteq> [])"
| "truthy (JS_number (Finite q)) = (q \<noteq> 0)"
| "truthy (JS_number NaN) = False"
| "truthy (JS_number x) = True"

definition js_or :: "js_value \<Rightarrow> js_value \<Rightarrow> js_value" where
  "js_or x y = (if truthy x then x else y)"

definition env_value :: "string option \<Rightarrow> js_value" where
  "env_value v = (case v of None \<Rightarrow> JS_undefined | Some s \<Rightarrow> JS_string s)"

text \<open>
  A failed operation (a thrown exception, a rejected promise) is the left summand of its
  result.
\<close>

datatype js_error = SystemError string | TypeError string

section \<open>Module state\<close>

text \<open>
  The module-level bindings of \<^verbatim>\<open>health.service.js\<close>. The five metric objects belong to
  the external library \<^verbatim>\<open>prom-client\<close>; each is modelled by what it holds: a counter and
  a gauge by the current value of every label set that has one, a histogram by the
  observations made under every label set, in order. \<open>defaultMetrics\<close> records that
  \<^verbatim>\<open>collectDefaultMetrics()\<close> has been called.
\<close>

record module_state =
  startTime :: number
  requestCount :: number
  errorCount :: number
  defaultMetrics :: bool
  httpRequestsTotal :: "string \<times> string \<times> string \<rightharpoonup> number"
  httpRequestDuration :: "string \<times> string \<Rightarrow> number list"
  activeConnections :: number
  memoryUsage :: "string \<rightharpoonup> number"
  cpuUsage :: number

definition counter_inc :: "('l \<rightharpoonup> number) \<Rightarrow> 'l \<Rightarrow> ('l \<rightharpoonup> number)" where
  "counter_inc c labels =
     c(labels \<mapsto> js_add (case c labels of None \<Rightarrow> Finite 0 | Some v \<Rightarrow> v) (Finite 1))"

definition histogram_observe :: "('l \<Rightarrow> number list) \<Rightarrow> 'l \<Rightarrow> number \<Rightarrow> ('l \<Rightarrow> number list)" where
  "histogram_observe h labels v = h(labels := h labels @ [v])"

definition gauge_set :: "('l \<rightharpoonup> number) \<Rightarrow> 'l \<Rightarrow> number \<Rightarrow> ('l \<rightharpoonup> number)" where
  "gauge_set g labels v = g(labels \<mapsto> v)"

section \<open>The runtime\<close>

text \<open>
  What the module reads from Node.js at the moment of a call: the clock, the process, the
  operating system, the environment variables, the file system, and the text into which
  the metrics registry renders itself. Byte counts, times and process identifiers are
  non-negative integers.
\<close>

record memory_usage =
  heapUsed :: nat
  heapTotal :: nat
  external :: nat

record cpu_usage =
  cpuUsage_user :: nat
  cpuUsage_system :: nat

record runtime =
  Date_now :: nat
  Date_toISOString :: string
  process_memoryUsage :: memory_usage
  process_cpuUsage :: cpu_usage
  process_version :: string
  process_pid :: nat
  process_ppid :: nat
  process_title :: string
  process_argv :: "string list"
  process_env :: "string \<rightharpoonup> string"
  os_cpus_length :: nat
  os_platform :: string
  os_arch :: string
  os_loadavg :: "number list"
  fs_access :: "string \<Rightarrow> nat \<Rightarrow> js_error + unit"
  register_metrics :: "module_state \<Rightarrow> string"

definition W_OK :: nat where
  "W_OK = 2"

text \<open>Module initialisation: lines 5 to 40 of the source.\<close>

definition module_init :: "runtime \<Rightarrow> module_state" where
  "module_init rt =
     \<lparr>startTime = number_of_nat (Date_now rt),
      requestCount = Finite 0,
      errorCount = Finite 0,
      defaultMetrics = True,
      httpRequestsTotal = Map.empty,
      httpRequestDuration = (\<lambda>labels. []),
      activeConnections = Finite 0,
      memoryUsage = Map.empty,
      cpuUsage = Finite 0\<rparr>"

section \<open>Operations that update the metrics\<close>

definition incrementRequestCount ::
    "string \<Rightarrow> string \<Rightarrow> string \<Rightarrow> module_state \<Rightarrow> module_state" where
  "incrementRequestCount method route statusCode s =
     s\<lparr>requestCount := js_add (requestCount s) (Finite 1),
       httpRequestsTotal := counter_inc (httpRequestsTotal s) (method, route, statusCode)\<rparr>"

text \<open>The arrow function returns the value of \<^verbatim>\<open>errorCount++\<close>: the count before the increment.\<close>

definition incrementErrorCount :: "module_state \<Rightarrow> number \<times> module_state" where
  "incrementErrorCount s = (errorCount s, s\<lparr>errorCount := js_add (errorCount s) (Finite 1)\<rparr>)"

text \<open>The duration is a finite number of milliseconds.\<close>

definition recordRequestDuration ::
    "string \<Rightarrow> string \<Rightarrow> rat \<Rightarrow> module_state \<Rightarrow> module_state" where
  "recordRequestDuration method route duration s =
     s\<lparr>httpRequestDuration :=
         histogram_observe (httpRequestDuration s) (method, route)
           (js_div (Finite duration) (Finite 1000))\<rparr>"

definition updateActiveConnections :: "number \<Rightarrow> module_state \<Rightarrow> module_state" where
  "updateActiveConnections count s = s\<lparr>activeConnections := count\<rparr>"

definition updateMemoryUsage :: "runtime \<Rightarrow> module_state \<Rightarrow> module_state" where
  "updateMemoryUsage rt s =
     (let memUsage = process_memoryUsage rt;
          g = gauge_set (memoryUsage s) ''heap_used'' (number_of_nat (heapUsed memUsage));
          g = gauge_set g ''heap_total'' (number_of_nat (heapTotal memUsage));
          g = gauge_set g ''external'' (number_of_nat (external memUsage))
      in s\<lparr>memoryUsage := g\<rparr>)"

definition updateCpuUsage :: "runtime \<Rightarrow> module_state \<Rightarrow> module_state" where
  "updateCpuUsage rt s =
     (let cpu = process_cpuUsage rt;
          total = js_add (number_of_nat (cpuUsage_user cpu)) (number_of_nat (cpuUsage_system cpu));
          usage = js_div (js_div total (Finite 1000000)) (number_of_nat (os_cpus_length rt))
      in s\<lparr>cpuUsage := usage\<rparr>)"

section \<open>Queries\<close>

record health_memory =
  memory_used :: string
  memory_total :: string
  memory_external :: string

record health_cpu =
  cpu_user :: number
  cpu_system :: number

record health_system =
  system_platform :: string
  system_arch :: string
  system_nodeVersion :: string
  system_loadAvg :: "number list"

record health_requests =
  requests_total :: number
  requests_errors :: number
  requests_errorRate :: string

record system_health =
  status :: string
  timestamp :: string
  uptime :: string
  memory :: health_memory
  cpu :: health_cpu
  system :: health_system
  requests :: health_requests

definition megabytes :: "nat \<Rightarrow> string" where
  "megabytes bytes =
     js_to_string (Math_round (js_div (js_div (number_of_nat bytes) (Finite 1024)) (Finite 1024)))
       @ ''MB''"

definition getSystemHealth :: "runtime \<Rightarrow> module_state \<Rightarrow> system_health" where
  "getSystemHealth rt s =
     (let uptime = js_sub (number_of_nat (Date_now rt)) (startTime s);
          memUsage = process_memoryUsage rt;
          cpuUsage = process_cpuUsage rt
      in \<lparr>status = ''healthy'',
          timestamp = Date_toISOString rt,
          uptime = js_to_string (Math_floor (js_div uptime (Finite 1000))) @ ''s'',
          memory =
            \<lparr>memory_used = megabytes (heapUsed memUsage),
             memory_total = megabytes (heapTotal memUsage),
             memory_external = megabytes (external memUsage)\<rparr>,
          cpu =
            \<lparr>cpu_user = number_of_nat (cpuUsage_user cpuUsage),
             cpu_system = number_of_nat (cpuUsage_system cpuUsage)\<rparr>,
          system =
            \<lparr>system_platform = os_platform rt,
             system_arch = os_arch rt,
             system_nodeVersion = process_version rt,
             system_loadAvg = os_loadavg rt\<rparr>,
          requests =
            \<lparr>requests_total = requestCount s,
             requests_errors = errorCount s,
             requests_errorRate =
               (if js_gt (requestCount s) (Finite 0)
                then toFixed (js_mul (js_div (errorCount s) (requestCount s)) (Finite 100)) 2
                       @ ''%''
                else ''0%'')\<rparr>\<rparr>)"

record dependency_check =
  check_name :: string
  check_status :: string
  check_error :: "string option"
  check_usage :: "string option"

text \<open>
  \<^verbatim>\<open>checkDependencies\<close> is asynchronous: its result is the outcome of the promise it
  returns, \<open>Inl\<close> for a rejection. The \<^verbatim>\<open>try\<close> block awaits the access check and pushes
  the healthy entry; the \<^verbatim>\<open>catch\<close> block receives whatever the check rejected with and
  pushes the unhealthy entry.
\<close>

definition checkDependencies :: "runtime \<Rightarrow> js_error + dependency_check list" where
  "checkDependencies rt =
     (let checks = [];
          checks =
            (case fs_access rt ''./logs'' W_OK of
               Inr done \<Rightarrow>
                 checks @ [\<lparr>check_name = ''filesystem'', check_status = ''healthy'',
                            check_error = None, check_usage = None\<rparr>]
             | Inl err \<Rightarrow>
                 checks @ [\<lparr>check_name = ''filesystem'', check_status = ''unhealthy'',
                            check_error = Some ''Cannot write to logs directory'',
                            check_usage = None\<rparr>]);
          memUsage = process_memoryUsage rt;
          memoryHealthy =
            js_lt (number_of_nat (heapUsed memUsage))
              (js_mul (number_of_nat (heapTotal memUsage)) (to_number (9 / 10)));
          checks =
            checks @ [\<lparr>check_name = ''memory'',
                       check_status = (if memoryHealthy then ''healthy'' else ''warning''),
                       check_error = None,
                       check_usage =
                         Some (js_to_string
                                 (Math_round
                                    (js_mul
                                       (js_div (number_of_nat (heapUsed memUsage))
                                          (number_of_nat (heapTotal memUsage)))
                                       (Finite 100)))
                               @ ''%'')\<rparr>]
      in Inr checks)"

record process_info =
  pid :: number
  ppid :: number
  title :: string
  argv :: "string list"

record environment_info =
  nodeEnv :: js_value
  port :: js_value

record detailed_metrics = system_health +
  process :: process_info
  environment :: environment_info

definition getDetailedMetrics :: "runtime \<Rightarrow> module_state \<Rightarrow> detailed_metrics" where
  "getDetailedMetrics rt s =
     (let health = getSystemHealth rt s
      in system_health.extend health
           \<lparr>process =
              \<lparr>pid = number_of_nat (process_pid rt),
               ppid = number_of_nat (process_ppid rt),
               title = process_title rt,
               argv = process_argv rt\<rparr>,
            environment =
              \<lparr>nodeEnv = env_value (process_env rt ''NODE_ENV''),
               port = js_or (env_value (process_env rt ''PORT'')) (JS_number (Finite 5001))\<rparr>\<rparr>)"

text \<open>
  \<^verbatim>\<open>getPrometheusMetrics\<close> returns the text of \<^verbatim>\<open>register.metrics()\<close> and leaves the two
  refreshed gauges in the module state.
\<close>

definition getPrometheusMetrics :: "runtime \<Rightarrow> module_state \<Rightarrow> string \<times> module_state" where
  "getPrometheusMetrics rt s =
     (let s = updateMemoryUsage rt s;
          s = updateCpuUsage rt s
      in (register_metrics rt s, s))"

section \<open>Sequences of calls\<close>

text \<open>
  The ten exported operations. A call is made at some moment of the runtime; \<open>exec\<close> is
  its effect on the module state, \<open>run\<close> the effect of a sequence of calls.
\<close>

datatype operation =
    IncrementRequestCount string string string
  | IncrementErrorCount
  | RecordRequestDuration string string rat
  | UpdateActiveConnections number
  | UpdateMemoryUsage
  | UpdateCpuUsage
  | GetSystemHealth
  | CheckDependencies
  | GetDetailedMetrics
  | GetPrometheusMetrics

fun exec :: "runtime \<Rightarrow> operation \<Rightarrow> module_state \<Rightarrow> module_state" where
  "exec rt (IncrementRequestCount method route statusCode) s =
     incrementRequestCount method route statusCode s"
| "exec rt IncrementErrorCount s = snd (incrementErrorCount s)"
| "exec rt (RecordRequestDuration method route duration) s =
     recordRequestDuration method route duration s"
| "exec rt (UpdateActiveConnections count) s = updateActiveConnections count s"
| "exec rt UpdateMemoryUsage s = updateMemoryUsage rt s"
| "exec rt UpdateCpuUsage s = updateCpuUsage rt s"
| "exec rt GetSystemHealth s = s"
| "exec rt CheckDependencies s = s"
| "exec rt GetDetailedMetrics s = s"
| "exec rt GetPrometheusMetrics s = snd (getPrometheusMetrics rt s)"

fun run :: "(runtime \<times> operation) list \<Rightarrow> module_state \<Rightarrow> module_state" where
  "run [] s = s"
| "run ((rt, call) # calls) s = run calls (exec rt call s)"

fun is_incrementRequestCount :: "operation \<Rightarrow> bool" where
  "is_incrementRequestCount (IncrementRequestCount method route statusCode) = True"
| "is_incrementRequestCount call = False"

definition request_calls :: "(runtime \<times> operation) list \<Rightarrow> nat" where
  "request_calls calls = length (filter (\<lambda>(rt, call). is_incrementRequestCount call) calls)"

definition error_calls :: "(runtime \<times> operation) list \<Rightarrow> nat" where
  "error_calls calls = length (filter (\<lambda>(rt, call). call = IncrementErrorCount) calls)"

section \<open>A concrete runtime\<close>

text \<open>A runtime snapshot on which the properties below are evaluated.\<close>

definition example_runtime :: runtime where
  "example_runtime =
     \<lparr>Date_now = 1700000005000,
      Date_toISOString = ''2023-11-14T22:13:25.000Z'',
      process_memoryUsage = \<lparr>heapUsed = 52428800, heapTotal = 104857600, external = 1048576\<rparr>,
      process_cpuUsage = \<lparr>cpuUsage_user = 1500000, cpuUsage_system = 500000\<rparr>,
      process_version = ''v20.11.0'',
      process_pid = 4242,
      process_ppid = 1,
      process_title = ''node'',
      process_argv = [''node'', ''server.js''],
      process_env = [''NODE_ENV'' \<mapsto> ''production'', ''PORT'' \<mapsto> ''8080''],
      os_cpus_length = 4,
      os_platform = ''linux'',
      os_arch = ''x64'',
      os_loadavg = [Finite (1 / 2), Finite (1 / 4), Finite (1 / 8)],
      fs_access = (\<lambda>path mode. Inr ()),
      register_metrics = (\<lambda>s. ''# HELP http_requests_total Total number of HTTP requests'')\<rparr>"

text \<open>The same runtime with a heap of some five petabytes.\<close>

definition large_heap_runtime :: runtime where
  "large_heap_runtime =
     example_runtime
       \<lparr>process_memoryUsage :=
          \<lparr>heapUsed = 4500000000000008, heapTotal = 5000000000000009, external = 1048576\<rparr>\<rparr>"

section \<open>Rounding to binary64\<close>

text \<open>
  The exponent found by \<open>floor_log2\<close> is the right one, and a value with at most 53
  significant bits is not changed by rounding. Every integer up to \<open>2^53\<close> is such a value;
  \<open>2^53 + 1\<close> is the first integer that is not.
\<close>

lemma two_powi_pos: "0 < (2::rat) powi k"
  by (simp add: power_int_def)

lemma floor_log2_bounds:
  assumes "0 < q"
  shows "2 powi floor_log2 q \<le> q" and "q < 2 powi (floor_log2 q + 1)"
proof -
  obtain a b where ab: "quotient_of q = (a, b)" by (cases "quotient_of q")
  have b: "0 < b" using ab by (rule quotient_of_denom_pos)
  have q: "q = of_int a / of_int b" using ab by (rule quotient_of_div)
  have a: "0 < a" using assms b q by (simp add: zero_less_divide_iff)
  define k where "k = bitlen a - bitlen b"
  have la: "1 \<le> bitlen a" and lb: "1 \<le> bitlen b"
    using a b bitlen_eq_zero_iff[of a] bitlen_eq_zero_iff[of b] bitlen_nonneg[of a] bitlen_nonneg[of b]
    by linarith+
  have a_hi: "(of_int a :: rat) < 2 powi bitlen a"
  proof -
    have "a < 2 ^ nat (bitlen a)" using bitlen_bounds[OF a] by simp
    then have "(of_int a :: rat) < of_int (2 ^ nat (bitlen a))" by (simp only: of_int_less_iff)
    then show ?thesis using la by (simp add: power_int_nonneg_exp)
  qed
  have a_lo: "2 powi (bitlen a - 1) \<le> (of_int a :: rat)"
  proof -
    have "2 ^ nat (bitlen a - 1) \<le> a" using bitlen_bounds[OF a] by simp
    then have "(of_int (2 ^ nat (bitlen a - 1)) :: rat) \<le> of_int a" by (simp only: of_int_le_iff)
    then show ?thesis using la by (simp add: power_int_nonneg_exp)
  qed
  have b_hi: "(of_int b :: rat) < 2 powi bitlen b"
  proof -
    have "b < 2 ^ nat (bitlen b)" using bitlen_bounds[OF b] by simp
    then have "(of_int b :: rat) < of_int (2 ^ nat (bitlen b))" by (simp only: of_int_less_iff)
    then show ?thesis using lb by (simp add: power_int_nonneg_exp)
  qed
  have b_lo: "2 powi (bitlen b - 1) \<le> (of_int b :: rat)"
  proof -
    have "2 ^ nat (bitlen b - 1) \<le> b" using bitlen_bounds[OF b] by simp
    then have "(of_int (2 ^ nat (bitlen b - 1)) :: rat) \<le> of_int b" by (simp only: of_int_le_iff)
    then show ?thesis using lb by (simp add: power_int_nonneg_exp)
  qed
  have bpos: "(0::rat) < of_int b" using b by simp
  have apos: "(0::rat) < of_int a" using a by simp
  have upper: "q < 2 powi (k + 1)"
  proof -
    have "q * of_int b = of_int a" using q bpos by simp
    also have "\<dots> < 2 powi bitlen a" by (rule a_hi)
    also have "\<dots> = 2 powi (k + 1) * 2 powi (bitlen b - 1)"
      by (simp add: k_def flip: power_int_add)
    also have "\<dots> \<le> 2 powi (k + 1) * of_int b"
      using b_lo two_powi_pos[of "k + 1"] by (simp add: mult_left_mono)
    finally show ?thesis using bpos by simp
  qed
  have lower: "2 powi (k - 1) < q"
  proof -
    have "(2::rat) powi (k - 1) * of_int b < 2 powi (k - 1) * 2 powi bitlen b"
      using b_hi two_powi_pos[of "k - 1"] by (simp add: mult_strict_left_mono)
    also have "\<dots> = 2 powi (bitlen a - 1)"
      by (simp add: k_def flip: power_int_add)
    also have "\<dots> \<le> of_int a" by (rule a_lo)
    also have "\<dots> = q * of_int b" using q bpos by simp
    finally show ?thesis using bpos by simp
  qed
  have fl: "floor_log2 q = (if 2 powi k \<le> q then k else k - 1)"
    by (simp add: floor_log2_def ab k_def Let_def)
  show "2 powi floor_log2 q \<le> q"
    using lower by (simp add: fl)
  show "q < 2 powi (floor_log2 q + 1)"
    using upper by (auto simp add: fl)
qed

lemma two_powi_less_iff: "(2::rat) powi m < 2 powi n \<longleftrightarrow> m < n"
proof
  assume lt: "(2::rat) powi m < 2 powi n"
  show "m < n"
  proof (rule ccontr)
    assume "\<not> m < n"
    then have "(2::rat) powi n \<le> 2 powi m" by (intro power_int_increasing) auto
    with lt show False by simp
  qed
next
  assume "m < n"
  then show "(2::rat) powi m < 2 powi n" by (intro power_int_strict_increasing) auto
qed

lemma floor_log2_unique:
  assumes "0 < q" and "2 powi e \<le> q" and "q < 2 powi (e + 1)"
  shows "floor_log2 q = e"
proof -
  have "(2::rat) powi floor_log2 q < 2 powi (e + 1)"
    using floor_log2_bounds(1)[OF assms(1)] assms(3) by linarith
  then have 1: "floor_log2 q < e + 1"
    by (simp only: two_powi_less_iff)
  have "(2::rat) powi e < 2 powi (floor_log2 q + 1)"
    using floor_log2_bounds(2)[OF assms(1)] assms(2) by linarith
  then have 2: "e < floor_log2 q + 1"
    by (simp only: two_powi_less_iff)
  show ?thesis using 1 2 by linarith
qed

lemma round_half_even_of_int: "round_half_even (of_int z) = z"
  by (simp add: round_half_even_def)

lemma round_half_even_error: "\<bar>of_int (round_half_even r) - r\<bar> \<le> 1 / 2"
proof -
  have "of_int \<lfloor>r\<rfloor> \<le> r" "r < of_int \<lfloor>r\<rfloor> + 1" by linarith+
  then show ?thesis
    by (auto simp add: round_half_even_def Let_def abs_le_iff)
qed

lemma round_to_double_exact:
  assumes q: "q = of_int m * 2 powi p0" and m: "m \<noteq> 0" "\<bar>m\<bar> < 2 ^ 53" and p0: "- 1074 \<le> p0"
  shows "round_to_double q = q"
proof -
  have qne: "q \<noteq> 0" using q m by simp
  have absq: "\<bar>q\<bar> = of_int \<bar>m\<bar> * 2 powi p0"
    using two_powi_pos[of p0] by (simp add: q abs_mult)
  have qpos: "0 < \<bar>q\<bar>" using qne by simp
  define e where "e = floor_log2 \<bar>q\<bar>"
  define p where "p = max (e - 52) (- 1074)"
  have "(of_int \<bar>m\<bar> :: rat) < of_int (2 ^ 53)" using m(2) by (simp only: of_int_less_iff)
  then have "\<bar>q\<bar> < 2 ^ 53 * 2 powi p0"
    using two_powi_pos[of p0] by (simp add: absq)
  also have "\<dots> = 2 powi (53 + p0)"
    by (simp add: power_int_add)
  finally have "\<bar>q\<bar> < 2 powi (53 + p0)" .
  moreover have "2 powi e \<le> \<bar>q\<bar>" unfolding e_def by (rule floor_log2_bounds(1)[OF qpos])
  ultimately have "(2::rat) powi e < 2 powi (53 + p0)" by linarith
  then have "e < 53 + p0" by (simp only: two_powi_less_iff)
  then have pp0: "p \<le> p0" using p0 by (simp add: p_def)
  have "q / 2 powi p = of_int m * 2 powi (p0 - p)"
    by (simp add: q power_int_diff)
  also have "\<dots> = of_int m * 2 ^ nat (p0 - p)"
    using pp0 by (simp add: power_int_nonneg_exp)
  also have "\<dots> = of_int (m * 2 ^ nat (p0 - p))" by simp
  finally have "round_half_even (q / 2 powi p) = m * 2 ^ nat (p0 - p)"
    by (simp only: round_half_even_of_int)
  then have "round_to_double q = of_int (m * 2 ^ nat (p0 - p)) * 2 powi p"
    using qne by (simp add: round_to_double_def e_def p_def Let_def)
  also have "\<dots> = of_int m * (2 powi (p0 - p) * 2 powi p)"
    using pp0 by (simp add: power_int_nonneg_exp)
  also have "\<dots> = q"
    by (simp add: q flip: power_int_add)
  finally show ?thesis .
qed

lemma round_to_double_of_nat:
  assumes "n \<le> 2 ^ 53"
  shows "round_to_double (of_nat n) = of_nat n"
proof -
  consider "n = 0" | "0 < n" "n < 2 ^ 53" | "n = 2 ^ 53" using assms by linarith
  then show ?thesis
  proof cases
    case 1
    then show ?thesis by (simp add: round_to_double_def)
  next
    case 2
    show ?thesis
      by (rule round_to_double_exact[where m = "int n" and ?p0.0 = 0]) (use 2 in auto)
  next
    case 3
    have "round_to_double (2 ^ 53) = 2 ^ 53"
      by (rule round_to_double_exact[where m = 1 and ?p0.0 = 53]) auto
    then show ?thesis by (simp add: 3)
  qed
qed

lemma to_number_of_nat:
  assumes "n \<le> 2 ^ 53"
  shows "to_number (of_nat n) = Finite (of_nat n)"
proof -
  have "(of_nat n :: rat) \<le> of_nat (2 ^ 53)" using assms by (simp only: of_nat_le_iff)
  then have "(of_nat n :: rat) \<le> 2 ^ 53" by simp
  moreover have "(2::rat) ^ 53 < 2 ^ 1024" by simp
  ultimately have lt: "(of_nat n :: rat) < 2 ^ 1024" by linarith
  have "- ((2::rat) ^ 1024) < 0" by simp
  also have "(0::rat) \<le> of_nat n" by simp
  finally have gt: "\<not> (of_nat n :: rat) \<le> - (2 ^ 1024)" by simp
  show ?thesis
    using lt gt by (simp add: to_number_def round_to_double_of_nat[OF assms] Let_def)
qed

lemma number_of_nat_exact: "n \<le> 2 ^ 53 \<Longrightarrow> number_of_nat n = Finite (of_nat n)"
  by (simp add: number_of_nat_def to_number_of_nat)

lemma round_to_double_above_limit: "round_to_double 9007199254740993 = 9007199254740992"
  by code_simp

lemma counter_increment:
  assumes "n \<le> 2 ^ 53"
  shows "js_add (Finite (of_nat n)) (Finite 1) = Finite (of_nat (min (Suc n) (2 ^ 53)))"
proof (cases "n < 2 ^ 53")
  case True
  then have "Suc n \<le> 2 ^ 53" by simp
  then have "to_number (of_nat (Suc n)) = Finite (of_nat (Suc n))" by (rule to_number_of_nat)
  then show ?thesis using True by (simp add: add.commute min_def)
next
  case False
  then have n: "n = 2 ^ 53" using assms by simp
  have "to_number 9007199254740993 = Finite 9007199254740992"
    by (simp add: to_number_def round_to_double_above_limit)
  then show ?thesis by (simp add: n)
qed

text \<open>The error of rounding is at most half a unit in the last place.\<close>

lemma round_to_double_error:
  assumes "q \<noteq> 0"
  shows "\<bar>round_to_double q - q\<bar> \<le> 2 powi (max (floor_log2 \<bar>q\<bar> - 52) (- 1074) - 1)"
proof -
  define p where "p = max (floor_log2 \<bar>q\<bar> - 52) (- 1074)"
  define z where "z = round_half_even (q / 2 powi p)"
  have r: "round_to_double q = of_int z * 2 powi p"
    using assms by (simp add: round_to_double_def p_def z_def Let_def)
  have pos: "0 < (2::rat) powi p" by (rule two_powi_pos)
  have "round_to_double q - q = (of_int z - q / 2 powi p) * 2 powi p"
    using pos by (simp add: r algebra_simps)
  then have "\<bar>round_to_double q - q\<bar> = \<bar>of_int z - q / 2 powi p\<bar> * 2 powi p"
    using pos by (simp add: abs_mult)
  also have "\<dots> \<le> (1 / 2) * 2 powi p"
    using round_half_even_error[of "q / 2 powi p"] pos
    by (intro mult_right_mono) (simp_all add: z_def)
  also have "\<dots> = 2 powi (p - 1)"
    by (simp add: power_int_diff)
  finally show ?thesis by (simp only: p_def)
qed

lemma round_to_double_grid:
  assumes "q \<noteq> 0"
  shows "\<exists>z. round_to_double q = of_int z * 2 powi (max (floor_log2 \<bar>q\<bar> - 52) (- 1074))"
  using assms by (auto simp add: round_to_double_def Let_def)



lemma round_to_double_lower:
  assumes "1 \<le> q"
  shows "q / 2 \<le> round_to_double q"
proof -
  have qpos: "0 < \<bar>q\<bar>" and qne: "q \<noteq> 0" and absq: "\<bar>q\<bar> = q" using assms by simp_all
  define e where "e = floor_log2 \<bar>q\<bar>"
  have lo: "2 powi e \<le> q" and hi: "q < 2 powi (e + 1)"
    using floor_log2_bounds[OF qpos] by (simp_all add: e_def absq)
  have "(2::rat) powi 0 < 2 powi (e + 1)" using assms hi by simp
  then have "0 < e + 1" by (simp only: two_powi_less_iff)
  then have e0: "0 \<le> e" by simp
  then have p: "max (e - 52) (- 1074) = e - 52" by simp
  have "\<bar>round_to_double q - q\<bar> \<le> 2 powi (e - 52 - 1)"
    using round_to_double_error[OF qne] by (simp only: e_def[symmetric] p)
  moreover have "(2::rat) powi (e - 52 - 1) \<le> 2 powi (e - 1)"
    by (intro power_int_increasing) simp_all
  moreover have "(2::rat) powi (e - 1) = 2 powi e / 2" by (simp add: power_int_diff)
  ultimately have "\<bar>round_to_double q - q\<bar> \<le> q / 2" using lo by simp
  then show ?thesis by linarith
qed

section \<open>The health status\<close>

text \<open>
  Claim C6. For every module state and every runtime, the \<open>status\<close> field of the object
  returned by \<^verbatim>\<open>getSystemHealth()\<close> is the fixed string \<open>healthy\<close>: no counter, no
  dependency check and no reading of the runtime enters it.
\<close>

theorem getSystemHealth_status_fixed:
  "status (getSystemHealth rt s) = ''healthy''"
  by (simp add: getSystemHealth_def Let_def)

section \<open>The reported port\<close>

text \<open>
  Claim C7, as amended. The \<open>environment.port\<close> field returned by
  \<^verbatim>\<open>getDetailedMetrics()\<close> is the value of the variable \<open>PORT\<close> when that is set to a
  non-empty string, and the number 5001 when \<open>PORT\<close> is unset or set to the empty string.
\<close>

theorem getDetailedMetrics_port:
  "port (environment (getDetailedMetrics rt s)) =
     (case process_env rt ''PORT'' of
        None \<Rightarrow> JS_number (Finite 5001)
      | Some p \<Rightarrow> if p = [] then JS_number (Finite 5001) else JS_string p)"
  by (simp add: getDetailedMetrics_def Let_def system_health.extend_def js_or_def env_value_def
      split: option.splits)

text \<open>
  The claim as first stated (the port is the value of \<open>PORT\<close> whenever \<open>PORT\<close> is set)
  fails when \<open>PORT\<close> is set to the empty string: the operator \<^verbatim>\<open>||\<close> then yields 5001.
\<close>

theorem getDetailedMetrics_port_empty_string:
  "process_env (example_runtime\<lparr>process_env := [''PORT'' \<mapsto> []]\<rparr>) ''PORT'' = Some []
   \<and> port (environment
        (getDetailedMetrics (example_runtime\<lparr>process_env := [''PORT'' \<mapsto> []]\<rparr>)
           (module_init example_runtime)))
     = JS_number (Finite 5001)
   \<and> JS_number (Finite 5001) \<noteq> JS_string []"
  by (simp add: getDetailedMetrics_def Let_def system_health.extend_def js_or_def env_value_def)

section \<open>Dependency checks\<close>

text \<open>
  Claim C4. \<^verbatim>\<open>checkDependencies()\<close> never rejects: whatever the outcome of the access
  check of \<open>./logs\<close> for writing, the result is a list of two entries, the file system
  entry first and the memory entry second. The file system entry is
  \<open>{name: filesystem, status: healthy}\<close> when the check succeeds, and
  \<open>{name: filesystem, status: unhealthy, error: Cannot write to logs directory}\<close> when
  it fails, whatever the error.
\<close>

theorem checkDependencies_never_rejects:
  "\<exists>m. checkDependencies rt =
         Inr [case fs_access rt ''./logs'' W_OK of
                Inr done \<Rightarrow>
                  \<lparr>check_name = ''filesystem'', check_status = ''healthy'',
                   check_error = None, check_usage = None\<rparr>
              | Inl err \<Rightarrow>
                  \<lparr>check_name = ''filesystem'', check_status = ''unhealthy'',
                   check_error = Some ''Cannot write to logs directory'',
                   check_usage = None\<rparr>,
              m]
       \<and> check_name m = ''memory''"
  by (simp add: checkDependencies_def Let_def split: sum.splits)

section \<open>The two counters along a sequence of calls\<close>

lemma exec_requestCount:
  "requestCount (exec rt call s) =
     (if is_incrementRequestCount call then js_add (requestCount s) (Finite 1)
      else requestCount s)"
  by (cases call)
    (simp_all add: incrementRequestCount_def incrementErrorCount_def recordRequestDuration_def
      updateActiveConnections_def updateMemoryUsage_def updateCpuUsage_def
      getPrometheusMetrics_def Let_def)

lemma exec_errorCount:
  "errorCount (exec rt call s) =
     (if call = IncrementErrorCount then js_add (errorCount s) (Finite 1) else errorCount s)"
  by (cases call)
    (simp_all add: incrementRequestCount_def incrementErrorCount_def recordRequestDuration_def
      updateActiveConnections_def updateMemoryUsage_def updateCpuUsage_def
      getPrometheusMetrics_def Let_def)

lemma request_calls_Cons:
  "request_calls ((rt, call) # calls) =
     (if is_incrementRequestCount call then Suc (request_calls calls) else request_calls calls)"
  by (simp add: request_calls_def)

lemma error_calls_Cons:
  "error_calls ((rt, call) # calls) =
     (if call = IncrementErrorCount then Suc (error_calls calls) else error_calls calls)"
  by (simp add: error_calls_def)

lemma run_requestCount:
  assumes "requestCount s = Finite (of_nat n)" and "n \<le> 2 ^ 53"
  shows "requestCount (run calls s) = Finite (of_nat (min (n + request_calls calls) (2 ^ 53)))"
  using assms
proof (induction calls arbitrary: s n)
  case Nil
  then show ?case by (simp add: request_calls_def)
next
  case (Cons c calls)
  obtain rt call where c: "c = (rt, call)" by (cases c)
  show ?case
  proof (cases "is_incrementRequestCount call")
    case True
    have step: "requestCount (exec rt call s) = Finite (of_nat (min (Suc n) (2 ^ 53)))"
      using True by (simp only: exec_requestCount if_True Cons.prems(1)
          counter_increment[OF Cons.prems(2)])
    have "requestCount (run calls (exec rt call s)) =
            Finite (of_nat (min (min (Suc n) (2 ^ 53) + request_calls calls) (2 ^ 53)))"
      by (rule Cons.IH[OF step]) simp
    then show ?thesis using True by (simp add: c request_calls_Cons min_def)
  next
    case False
    have step: "requestCount (exec rt call s) = Finite (of_nat n)"
      using False Cons.prems by (simp add: exec_requestCount)
    have "requestCount (run calls (exec rt call s)) =
            Finite (of_nat (min (n + request_calls calls) (2 ^ 53)))"
      by (rule Cons.IH[OF step Cons.prems(2)])
    then show ?thesis using False by (simp add: c request_calls_Cons)
  qed
qed

lemma run_errorCount:
  assumes "errorCount s = Finite (of_nat n)" and "n \<le> 2 ^ 53"
  shows "errorCount (run calls s) = Finite (of_nat (min (n + error_calls calls) (2 ^ 53)))"
  using assms
proof (induction calls arbitrary: s n)
  case Nil
  then show ?case by (simp add: error_calls_def)
next
  case (Cons c calls)
  obtain rt call where c: "c = (rt, call)" by (cases c)
  show ?case
  proof (cases "call = IncrementErrorCount")
    case True
    have step: "errorCount (exec rt call s) = Finite (of_nat (min (Suc n) (2 ^ 53)))"
      using True by (simp only: exec_errorCount if_True Cons.prems(1)
          counter_increment[OF Cons.prems(2)] refl)
    have "errorCount (run calls (exec rt call s)) =
            Finite (of_nat (min (min (Suc n) (2 ^ 53) + error_calls calls) (2 ^ 53)))"
      by (rule Cons.IH[OF step]) simp
    then show ?thesis using True by (simp add: c error_calls_Cons min_def)
  next
    case False
    have step: "errorCount (exec rt call s) = Finite (of_nat n)"
      using False Cons.prems by (simp add: exec_errorCount)
    have "errorCount (run calls (exec rt call s)) =
            Finite (of_nat (min (n + error_calls calls) (2 ^ 53)))"
      by (rule Cons.IH[OF step Cons.prems(2)])
    then show ?thesis using False by (simp add: c error_calls_Cons)
  qed
qed

lemma requestCount_reachable:
  "requestCount (run calls (module_init rt0)) = Finite (of_nat (min (request_calls calls) (2 ^ 53)))"
  using run_requestCount[of "module_init rt0" 0 calls] by (simp add: module_init_def)

lemma errorCount_reachable:
  "errorCount (run calls (module_init rt0)) = Finite (of_nat (min (error_calls calls) (2 ^ 53)))"
  using run_errorCount[of "module_init rt0" 0 calls] by (simp add: module_init_def)

lemma requests_total_eq: "requests_total (requests (getSystemHealth rt s)) = requestCount s"
  by (simp add: getSystemHealth_def Let_def)


text \<open>
  Claim C1, as amended. After any sequence of calls since module initialisation that
  contains at most \<open>2^53\<close> calls of \<^verbatim>\<open>incrementRequestCount\<close> (with any arguments, and
  mixed with any other operations), \<open>requests.total\<close> of \<^verbatim>\<open>getSystemHealth()\<close> is the
  number of those calls.
\<close>

theorem requests_total_counts_calls:
  assumes "request_calls calls \<le> 2 ^ 53"
  shows "requests_total (requests (getSystemHealth rt (run calls (module_init rt0)))) =
           Finite (of_nat (request_calls calls))"
  using assms by (simp add: requests_total_eq requestCount_reachable)

text \<open>Two request calls and one error call: the total is 2.\<close>

theorem requests_total_counts_calls_witness:
  "request_calls
     [(example_runtime, IncrementRequestCount ''GET'' ''/health'' ''200''),
      (example_runtime, IncrementErrorCount),
      (example_runtime, IncrementRequestCount ''POST'' ''/api'' ''500'')] \<le> 2 ^ 53
   \<and> requests_total (requests (getSystemHealth example_runtime
        (run [(example_runtime, IncrementRequestCount ''GET'' ''/health'' ''200''),
              (example_runtime, IncrementErrorCount),
              (example_runtime, IncrementRequestCount ''POST'' ''/api'' ''500'')]
           (module_init example_runtime)))) = Finite 2"
  using requests_total_counts_calls[of
      "[(example_runtime, IncrementRequestCount ''GET'' ''/health'' ''200''),
        (example_runtime, IncrementErrorCount),
        (example_runtime, IncrementRequestCount ''POST'' ''/api'' ''500'')]"
      example_runtime example_runtime]
  by (simp add: request_calls_def)

lemma request_calls_replicate:
  "request_calls (replicate k (rt, IncrementRequestCount method route statusCode)) = k"
  by (induction k) (simp_all add: request_calls_def)

text \<open>
  The claim as first stated (for every sequence of calls) fails once the counter, a
  binary64 value, reaches \<open>2^53\<close>: there \<^verbatim>\<open>requestCount++\<close> rounds \<open>2^53 + 1\<close> back to
  \<open>2^53\<close>, so after \<open>2^53 + 1\<close> calls the reported total is \<open>2^53\<close>.
\<close>

theorem requests_total_saturates:
  "request_calls
     (replicate 9007199254740993 (example_runtime, IncrementRequestCount ''GET'' ''/'' ''200''))
     = 9007199254740993
   \<and> requests_total (requests (getSystemHealth example_runtime
        (run (replicate 9007199254740993
                (example_runtime, IncrementRequestCount ''GET'' ''/'' ''200''))
           (module_init example_runtime)))) = Finite 9007199254740992
   \<and> Finite 9007199254740992 \<noteq> Finite (of_nat 9007199254740993)"
  by (simp only: requests_total_eq requestCount_reachable request_calls_replicate) simp

text \<open>
  Claim C9. In every state the module can reach, each of the ten exported operations
  leaves the request counter unchanged or increases it by one, and likewise the error
  counter: the counters hold natural numbers, and none is ever decreased or reset.
\<close>

theorem counters_never_decrease:
  "\<exists>n n' m m'.
      requestCount (run calls (module_init rt0)) = Finite (of_nat n)
    \<and> requestCount (exec rt call (run calls (module_init rt0))) = Finite (of_nat n')
    \<and> (n' = n \<or> n' = n + 1)
    \<and> errorCount (run calls (module_init rt0)) = Finite (of_nat m)
    \<and> errorCount (exec rt call (run calls (module_init rt0))) = Finite (of_nat m')
    \<and> (m' = m \<or> m' = m + 1)"
proof -
  define n where "n = min (request_calls calls) (2 ^ 53)"
  define m where "m = min (error_calls calls) (2 ^ 53)"
  have n: "requestCount (run calls (module_init rt0)) = Finite (of_nat n)" "n \<le> 2 ^ 53"
    by (simp_all add: n_def requestCount_reachable)
  have m: "errorCount (run calls (module_init rt0)) = Finite (of_nat m)" "m \<le> 2 ^ 53"
    by (simp_all add: m_def errorCount_reachable)
  define n' where "n' = (if is_incrementRequestCount call then min (Suc n) (2 ^ 53) else n)"
  define m' where "m' = (if call = IncrementErrorCount then min (Suc m) (2 ^ 53) else m)"
  have "requestCount (exec rt call (run calls (module_init rt0))) = Finite (of_nat n')"
    by (simp only: exec_requestCount n(1) counter_increment[OF n(2)] n'_def if_distrib[of Finite]
        if_distrib[of of_nat])
  moreover have "errorCount (exec rt call (run calls (module_init rt0))) = Finite (of_nat m')"
    by (simp only: exec_errorCount m(1) counter_increment[OF m(2)] m'_def if_distrib[of Finite]
        if_distrib[of of_nat])
  moreover have "n' = n \<or> n' = n + 1" using n(2) by (auto simp add: n'_def min_def)
  moreover have "m' = m \<or> m' = m + 1" using m(2) by (auto simp add: m'_def min_def)
  ultimately show ?thesis using n(1) m(1) by blast
qed

text \<open>
  Claim C10. The queries \<^verbatim>\<open>getSystemHealth()\<close>, \<^verbatim>\<open>getDetailedMetrics()\<close> and
  \<^verbatim>\<open>checkDependencies()\<close> leave the request counter and the error counter as they
  were, in every state.
\<close>

theorem queries_leave_counters:
  "requestCount (exec rt GetSystemHealth s) = requestCount s
   \<and> errorCount (exec rt GetSystemHealth s) = errorCount s
   \<and> requestCount (exec rt GetDetailedMetrics s) = requestCount s
   \<and> errorCount (exec rt GetDetailedMetrics s) = errorCount s
   \<and> requestCount (exec rt CheckDependencies s) = requestCount s
   \<and> errorCount (exec rt CheckDependencies s) = errorCount s"
  by simp

section \<open>Request durations\<close>

lemma to_number_exact:
  assumes "q = of_int m * 2 powi p0" "m \<noteq> 0" "\<bar>m\<bar> < 2 ^ 53" "- 1074 \<le> p0" "\<bar>q\<bar> < 2 ^ 1024"
  shows "to_number q = Finite q"
  using assms(5) by (simp add: to_number_def round_to_double_exact[OF assms(1-4)] Let_def abs_less_iff)



section \<open>The metrics text\<close>

lemma exec_defaultMetrics: "defaultMetrics (exec rt call s) = defaultMetrics s"
  by (cases call)
    (simp_all add: incrementRequestCount_def incrementErrorCount_def recordRequestDuration_def
      updateActiveConnections_def updateMemoryUsage_def updateCpuUsage_def
      getPrometheusMetrics_def Let_def)

lemma run_defaultMetrics: "defaultMetrics (run calls s) = defaultMetrics s"
proof (induction calls arbitrary: s)
  case Nil
  show ?case by simp
next
  case (Cons c calls)
  obtain rt call where c: "c = (rt, call)" by (cases c)
  have "defaultMetrics (run (c # calls) s) = defaultMetrics (exec rt call s)"
    unfolding c run.simps by (rule Cons.IH)
  then show ?case by (simp only: exec_defaultMetrics)
qed

text \<open>
  Claim C8. In every state the module can reach, \<^verbatim>\<open>getPrometheusMetrics()\<close> returns the
  text into which the registry renders the state left by \<^verbatim>\<open>updateMemoryUsage\<close> followed
  by \<^verbatim>\<open>updateCpuUsage\<close>, unmodified. In the rendered state the three readings of
  \<open>memory_usage_bytes\<close> and the gauge \<open>cpu_usage_percent\<close> hold the values read from the
  runtime at this call, the default metrics are registered, and the other metrics are
  as before the call.
\<close>

theorem getPrometheusMetrics_refreshes_then_renders:
  "(let s = run calls (module_init rt0);
        refreshed = updateCpuUsage rt (updateMemoryUsage rt s)
    in getPrometheusMetrics rt s = (register_metrics rt refreshed, refreshed)
       \<and> memoryUsage refreshed ''heap_used'' =
           Some (number_of_nat (heapUsed (process_memoryUsage rt)))
       \<and> memoryUsage refreshed ''heap_total'' =
           Some (number_of_nat (heapTotal (process_memoryUsage rt)))
       \<and> memoryUsage refreshed ''external'' =
           Some (number_of_nat (external (process_memoryUsage rt)))
       \<and> cpuUsage refreshed =
           js_div
             (js_div
                (js_add (number_of_nat (cpuUsage_user (process_cpuUsage rt)))
                   (number_of_nat (cpuUsage_system (process_cpuUsage rt))))
                (Finite 1000000))
             (number_of_nat (os_cpus_length rt))
       \<and> defaultMetrics refreshed
       \<and> httpRequestsTotal refreshed = httpRequestsTotal s
       \<and> httpRequestDuration refreshed = httpRequestDuration s
       \<and> activeConnections refreshed = activeConnections s)"
  by (simp add: getPrometheusMetrics_def updateCpuUsage_def updateMemoryUsage_def gauge_set_def
      Let_def run_defaultMetrics module_init_def)

section \<open>The error rate\<close>










lemma floor_numeral_fraction:
  "\<lfloor>(numeral a / numeral b :: rat)\<rfloor> = numeral a div numeral b"
  using floor_divide_of_int_eq[of "numeral a" "numeral b", where ?'a = rat] by simp








section \<open>The memory check\<close>

text \<open>
  The literal \<^verbatim>\<open>0.9\<close> is the binary64 value \<open>0.9 + 1 / (5 \<times> 2^53)\<close>. For a heap-total of
  at most \<open>2^50\<close> the rounded product \<^verbatim>\<open>heapTotal * 0.9\<close> is 90% of heap-total when that
  is an integer, and lies strictly between the two integers next to it otherwise.
\<close>

lemma round_nine_tenths_product:
  fixes ht :: nat
  assumes ht: "0 < ht" "ht \<le> 2 ^ 50"
  defines "x \<equiv> of_nat ht * (8106479329266893 / 9007199254740992 :: rat)"
  defines "n \<equiv> 9 * ht div 10"
  shows "9 * ht mod 10 = 0 \<Longrightarrow> round_to_double x = of_nat n"
    and "9 * ht mod 10 \<noteq> 0 \<Longrightarrow> of_nat n < round_to_double x \<and> round_to_double x < of_nat n + 1"
proof -
  define k where "k = 9 * ht mod 10"
  define H :: rat where "H = of_nat ht"
  define d :: rat where "d = H / 45035996273704960"
  have H1: "1 \<le> H" using ht(1) by (simp add: H_def)
  have "(of_nat ht :: rat) \<le> of_nat (2 ^ 50)" using ht(2) by (simp only: of_nat_le_iff)
  then have H2: "H \<le> 2 ^ 50" by (simp add: H_def)
  have "9 * ht = 10 * n + k" by (simp add: n_def k_def)
  then have "(of_nat (9 * ht) :: rat) = of_nat (10 * n + k)" by (simp only:)
  then have nk: "9 * H = 10 * of_nat n + of_nat k" by (simp add: H_def)
  have xH: "x = H * (8106479329266893 / 9007199254740992)" by (simp add: x_def H_def)
  have x: "x = of_nat n + of_nat k / 10 + d"
  proof -
    have "x = 9 * H / 10 + d" by (simp add: xH d_def)
    then show ?thesis by (simp add: nk add_divide_distrib)
  qed
  have d0: "0 < d" using H1 by (simp add: d_def)
  have d1: "d \<le> 1 / 40" using H2 by (simp add: d_def)
  have k9: "k \<le> 9" by (simp add: k_def)
  then have "(of_nat k :: rat) \<le> of_nat 9" by (simp only: of_nat_le_iff)
  then have k9': "(of_nat k :: rat) \<le> 9" by simp
  have xpos: "0 < x" using d0 by (simp add: x add_nonneg_pos)
  have xne: "x \<noteq> 0" and absx: "\<bar>x\<bar> = x" using xpos by simp_all
  have xhalf: "1 / 2 < x" using H1 by (simp add: xH)
  have "x < H" using H1 by (simp add: xH)
  then have x50: "x < 2 ^ 50" using H2 by linarith
  define e where "e = floor_log2 \<bar>x\<bar>"
  have lo: "2 powi e \<le> x" and hi: "x < 2 powi (e + 1)"
    using floor_log2_bounds[of "\<bar>x\<bar>"] xpos by (simp_all add: e_def absx)
  have "(2::rat) powi e < 2 powi 50" using lo x50 by simp
  then have e50: "e < 50" by (simp only: two_powi_less_iff)
  have "(2::rat) powi (- 1) < 2 powi (e + 1)" using xhalf hi by simp
  then have "- 1 < e + 1" by (simp only: two_powi_less_iff)
  then have p: "max (e - 52) (- 1074) = e - 52" by simp
  define r where "r = round_to_double x"
  have err: "\<bar>r - x\<bar> \<le> 2 powi (e - 53)"
    using round_to_double_error[OF xne] by (simp add: e_def[symmetric] p r_def)
  obtain z where z: "r = of_int z * 2 powi (e - 52)"
    using round_to_double_grid[OF xne] by (auto simp add: e_def[symmetric] p r_def)
  have "(2::rat) powi (e - 53) \<le> 2 powi (- 4)"
    using e50 by (intro power_int_increasing) simp_all
  then have small: "(2::rat) powi (e - 53) \<le> 1 / 16" by simp
  {
    assume "9 * ht mod 10 \<noteq> 0"
    then have "1 \<le> k" by (simp add: k_def)
    then have "(of_nat 1 :: rat) \<le> of_nat k" by (simp only: of_nat_le_iff)
    then have k1: "(1::rat) \<le> of_nat k" by simp
    have "of_nat n + 1 / 10 \<le> x" using k1 d0 by (simp add: x)
    moreover have "x \<le> of_nat n + 9 / 10 + 1 / 40" using k9' d1 by (simp add: x)
    ultimately have "of_nat n < r \<and> r < of_nat n + 1" using err small by linarith
  }
  then show "9 * ht mod 10 \<noteq> 0 \<Longrightarrow> of_nat n < round_to_double x \<and> round_to_double x < of_nat n + 1"
    by (simp add: r_def)
  {
    assume "9 * ht mod 10 = 0"
    then have k0: "k = 0" by (simp add: k_def)
    have Hn: "9 * H = 10 * of_nat n" using nk k0 by simp
    have xn: "x = of_nat n + d" using k0 by (simp add: x)
    have dn: "d = of_nat n / 40532396646334464" using Hn by (simp add: d_def)
    have npos: "(0::rat) < of_nat n" using Hn H1 by simp
    have "(of_nat n :: rat) < 2 * 2 powi e" using hi xn d0 by (simp add: power_int_add)
    then have "d < 2 powi e / 2 ^ 53" using two_powi_pos[of e] by (simp add: dn)
    also have "\<dots> = 2 powi (e - 53)" by (simp add: power_int_diff)
    finally have dsmall: "d < 2 powi (e - 53)" .
    have "\<bar>r - of_nat n\<bar> \<le> \<bar>r - x\<bar> + d" using d0 by (simp add: xn)
    then have close: "\<bar>r - of_nat n\<bar> < 2 * 2 powi (e - 53)" using err dsmall by linarith
    have twice: "2 * (2::rat) powi (e - 53) = 2 powi (e - 52)"
      by (simp add: power_int_diff)
    define w where "w = int n * 2 ^ nat (52 - e)"
    have w: "(of_nat n :: rat) = of_int w * 2 powi (e - 52)"
    proof -
      have "(2::rat) ^ nat (52 - e) = 2 powi (52 - e)" using e50 by (simp add: power_int_nonneg_exp)
      then have "of_int w * (2::rat) powi (e - 52) = of_nat n * (2 powi (52 - e) * 2 powi (e - 52))"
        by (simp add: w_def)
      also have "\<dots> = of_nat n" by (simp flip: power_int_add)
      finally show ?thesis by simp
    qed
    have "\<bar>r - of_nat n\<bar> = \<bar>of_int (z - w)\<bar> * 2 powi (e - 52)"
      using two_powi_pos[of "e - 52"] by (simp add: z w abs_mult flip: left_diff_distrib)
    then have "\<bar>of_int (z - w) :: rat\<bar> * 2 powi (e - 52) < 1 * 2 powi (e - 52)"
      using close twice by simp
    then have "\<bar>of_int (z - w) :: rat\<bar> < 1"
      using two_powi_pos[of "e - 52"] by (simp only: mult_less_cancel_right_pos)
    then have "\<bar>z - w\<bar> < 1" by (simp only: flip: of_int_abs) 
    then have "z = w" by simp
    then have "r = of_nat n" by (simp add: z w)
  }
  then show "9 * ht mod 10 = 0 \<Longrightarrow> round_to_double x = of_nat n"
    by (simp add: r_def)
qed

lemma round_nine_tenths: "round_to_double (9 / 10) = 8106479329266893 / 9007199254740992"
  by code_simp

lemma to_number_nine_tenths: "to_number (9 / 10) = Finite (8106479329266893 / 9007199254740992)"
  by (simp add: to_number_def round_nine_tenths)

lemma to_number_zero: "to_number 0 = Finite 0"
  by (simp add: to_number_def round_to_double_def)

lemma tenth_exact: "(a::nat) mod 10 = 0 \<Longrightarrow> 10 * (a div 10) = a"
  using mult_div_mod_eq[of 10 a] by simp

lemma tenth_inexact:
  fixes a hu :: nat
  assumes "a mod 10 \<noteq> 0"
  shows "(hu \<le> a div 10) = (10 * hu < a)"
proof -
  define n k where "n = a div 10" and "k = a mod 10"
  have "a = 10 * n + k" by (simp add: n_def k_def)
  moreover have "0 < k" using assms by (simp add: k_def)
  moreover have "k < 10" by (simp add: k_def)
  ultimately show ?thesis unfolding n_def[symmetric] by linarith
qed

lemma memory_threshold:
  fixes ht :: nat
  assumes "ht \<le> 2 ^ 50"
  shows "\<exists>r. js_mul (number_of_nat ht) (to_number (9 / 10)) = Finite r \<and> r \<le> 2 ^ 50
           \<and> (\<forall>hu::nat. (of_nat hu < r) = (10 * hu < 9 * ht))"
proof (cases "ht = 0")
  case True
  then show ?thesis
    by (simp add: number_of_nat_def to_number_zero to_number_nine_tenths)
next
  case False
  then have pos: "0 < ht" by simp
  define x where "x = of_nat ht * (8106479329266893 / 9007199254740992 :: rat)"
  define n where "n = 9 * ht div 10"
  define r where "r = round_to_double x"
  have exact: "number_of_nat ht = Finite (of_nat ht)"
    using assms by (intro number_of_nat_exact) simp
  have nle: "n \<le> 2 ^ 50 - 1" using assms by (simp add: n_def)
  then have "(of_nat n :: rat) \<le> of_nat (2 ^ 50 - 1)" by (simp only: of_nat_le_iff)
  then have nle': "(of_nat n :: rat) \<le> 2 ^ 50 - 1" by simp
  have cases: "(9 * ht mod 10 = 0 \<and> r = of_nat n)
      \<or> (9 * ht mod 10 \<noteq> 0 \<and> of_nat n < r \<and> r < of_nat n + 1)"
    using round_nine_tenths_product[OF pos assms] by (auto simp add: r_def x_def n_def)
  then have r0: "0 \<le> r" and r50: "r \<le> 2 ^ 50" using nle' by auto
  have "r < 2 ^ 1024" using r50 by (rule le_less_trans) simp
  moreover have "\<not> r \<le> - (2 ^ 1024)" using r0 by (simp add: not_le)
  ultimately have fin: "to_number x = Finite r"
    by (simp add: to_number_def r_def Let_def)
  have prod: "js_mul (number_of_nat ht) (to_number (9 / 10)) = Finite r"
    by (simp only: exact to_number_nine_tenths js_mul.simps fin[unfolded x_def])
  have "(of_nat hu < r) = (10 * hu < 9 * ht)" for hu :: nat
  proof -
    from cases show ?thesis
    proof (elim disjE conjE)
      assume k: "9 * ht mod 10 = 0" and r: "r = of_nat n"
      have "10 * n = 9 * ht" unfolding n_def using k by (rule tenth_exact)
      then show ?thesis by (simp add: r) linarith
    next
      assume k: "9 * ht mod 10 \<noteq> 0" and lo: "of_nat n < r" and hi: "r < of_nat n + 1"
      have iff: "(hu \<le> n) = (10 * hu < 9 * ht)" unfolding n_def using k by (rule tenth_inexact)
      show ?thesis
      proof (cases "hu \<le> n")
        case True
        then have "(of_nat hu :: rat) \<le> of_nat n" by (simp only: of_nat_le_iff)
        then have "of_nat hu < r" using lo by linarith
        then show ?thesis using True iff by simp
      next
        case False
        then have "n + 1 \<le> hu" by simp
        then have "(of_nat (n + 1) :: rat) \<le> of_nat hu" by (simp only: of_nat_le_iff)
        then have "\<not> of_nat hu < r" using hi by simp
        then show ?thesis using False iff by simp
      qed
    qed
  qed
  then show ?thesis using prod r50 by blast
qed

lemma js_lt_reading:
  assumes "r \<le> 2 ^ 50"
  shows "js_lt (number_of_nat hu) (Finite r) = (of_nat hu < r)"
proof (cases "hu \<le> 2 ^ 53")
  case True
  then show ?thesis by (simp add: number_of_nat_exact)
next
  case False
  then have "2 ^ 53 < hu" by simp
  then have "(of_nat (2 ^ 53) :: rat) < of_nat hu" by (simp only: of_nat_less_iff)
  then have big: "(2 ^ 53 :: rat) < of_nat hu" by simp
  define y where "y = round_to_double (of_nat hu)"
  have "(1::rat) \<le> 2 ^ 53" by simp
  then have "(1::rat) \<le> of_nat hu" using big by linarith
  then have "of_nat hu / 2 \<le> y" unfolding y_def by (rule round_to_double_lower)
  then have y: "2 ^ 52 < y" using big by simp
  have ry: "r < y" using assms y by (simp add: less_le_trans[of r "2 ^ 52"] le_less_trans[of r "2 ^ 50"])
  have "\<not> of_nat hu < r" using assms big by simp
  moreover have "js_lt (number_of_nat hu) (Finite r) = False"
    using ry y by (auto simp add: number_of_nat_def to_number_def Let_def y_def[symmetric])
  ultimately show ?thesis by simp
qed

text \<open>
  Claim C5, as amended. For every heap-used reading and every heap-total reading of at
  most \<open>2^50\<close> bytes, the memory entry of the list returned by \<^verbatim>\<open>checkDependencies()\<close>
  has status \<open>healthy\<close> exactly when heap-used is strictly below 90% of heap-total, and
  status \<open>warning\<close> otherwise; its \<open>usage\<close> is the Number \<open>heapUsed / heapTotal * 100\<close>,
  rounded by \<^verbatim>\<open>Math.round\<close> and followed by \<open>%\<close>.
\<close>

theorem memory_check_status:
  assumes "heapTotal (process_memoryUsage rt) \<le> 2 ^ 50"
  shows "\<exists>fs m. checkDependencies rt = Inr [fs, m]
           \<and> check_name m = ''memory''
           \<and> check_status m =
               (if 10 * heapUsed (process_memoryUsage rt) < 9 * heapTotal (process_memoryUsage rt)
                then ''healthy'' else ''warning'')
           \<and> check_usage m =
               Some (js_to_string
                       (Math_round
                          (js_mul
                             (js_div (number_of_nat (heapUsed (process_memoryUsage rt)))
                                (number_of_nat (heapTotal (process_memoryUsage rt))))
                             (Finite 100)))
                     @ ''%'')"
proof -
  obtain r where r: "js_mul (number_of_nat (heapTotal (process_memoryUsage rt))) (to_number (9 / 10))
        = Finite r" "r \<le> 2 ^ 50"
      "\<And>hu::nat. (of_nat hu < r) = (10 * hu < 9 * heapTotal (process_memoryUsage rt))"
    using memory_threshold[OF assms] by blast
  have "js_lt (number_of_nat (heapUsed (process_memoryUsage rt)))
          (js_mul (number_of_nat (heapTotal (process_memoryUsage rt))) (to_number (9 / 10)))
        = (10 * heapUsed (process_memoryUsage rt) < 9 * heapTotal (process_memoryUsage rt))"
    by (simp only: r(1) js_lt_reading[OF r(2)] r(3))
  then show ?thesis
    by (simp add: checkDependencies_def Let_def split: sum.splits)
qed

lemma to_number_half: "to_number (1 / 2) = Finite (1 / 2)"
  by (rule to_number_exact[where m = 1 and ?p0.0 = "- 1"]) simp_all

lemma to_number_fifty: "to_number 50 = Finite 50"
  using to_number_of_nat[of 50] by simp

lemma positive_to_string_fifty: "positive_to_string 50 = ''50''"
  by code_simp

text \<open>A heap of 100 MiB, half of it used: the entry is healthy and reports \<open>50%\<close>.\<close>

theorem memory_check_status_witness:
  "heapTotal (process_memoryUsage example_runtime) \<le> 2 ^ 50
   \<and> check_status (projr (checkDependencies example_runtime) ! 1) = ''healthy''
   \<and> check_usage (projr (checkDependencies example_runtime) ! 1) = Some ''50%''"
proof -
  have le: "heapTotal (process_memoryUsage example_runtime) \<le> 2 ^ 50"
    by (simp add: example_runtime_def)
  from memory_check_status[OF le] obtain fs m where
    m: "checkDependencies example_runtime = Inr [fs, m]"
      "check_status m =
         (if 10 * heapUsed (process_memoryUsage example_runtime)
               < 9 * heapTotal (process_memoryUsage example_runtime)
          then ''healthy'' else ''warning'')"
      "check_usage m =
         Some (js_to_string
                 (Math_round
                    (js_mul
                       (js_div (number_of_nat (heapUsed (process_memoryUsage example_runtime)))
                          (number_of_nat (heapTotal (process_memoryUsage example_runtime))))
                       (Finite 100)))
               @ ''%'')"
    by blast
  have status: "check_status m = ''healthy''"
    by (simp add: m(2) example_runtime_def)
  have usage: "check_usage m = Some ''50%''"
    by (simp add: m(3) example_runtime_def number_of_nat_exact to_number_half to_number_fifty
        floor_numeral_fraction positive_to_string_fifty)
  show ?thesis using le status usage by (simp add: m(1))
qed

lemma round_large_heap:
  "round_to_double (40532396646334537958313963402037 / 9007199254740992) = 4500000000000008"
  by code_simp

lemma to_number_large_heap:
  "to_number (40532396646334537958313963402037 / 9007199254740992) = Finite 4500000000000008"
  by (simp add: to_number_def round_large_heap)

text \<open>
  The claim as first stated (for every pair of readings) fails for a very large heap.
  With heap-total 5000000000000009, 90% of it is 4500000000000008.1; the product
  \<^verbatim>\<open>heapTotal * 0.9\<close> is rounded to the binary64 value 4500000000000008, so a heap-used
  of 4500000000000008, which is strictly below 90% of heap-total, is reported as
  \<open>warning\<close>.
\<close>

theorem memory_check_status_large_heap:
  "10 * heapUsed (process_memoryUsage large_heap_runtime)
     < 9 * heapTotal (process_memoryUsage large_heap_runtime)
   \<and> check_status (projr (checkDependencies large_heap_runtime) ! 1) = ''warning''"
  by (simp add: large_heap_runtime_def example_runtime_def checkDependencies_def Let_def
      number_of_nat_exact to_number_nine_tenths to_number_large_heap)

end
